theory Spec2Isabelle
  imports Main
begin

section \<open>The feature lifecycle of \<^verbatim>\<open>source/main.cpp\<close>\<close>

text \<open>
  A feature is known to \<^verbatim>\<open>main.cpp\<close> through a \<^verbatim>\<open>Feature*\<close> only, and the registry
  compares these pointers: a handle is modelled by its address. What the process does that
  can be seen from outside (log lines, calls into a feature, the release of the logger, the
  disconnect of the shared connection) is appended to a list of effects, and the way the
  process ends (\<^verbatim>\<open>exit\<close>, \<^verbatim>\<open>abort\<close>, a \<^verbatim>\<open>return\<close> from \<^verbatim>\<open>main\<close>) is its status.
\<close>

type_synonym feature = nat

datatype severity = LOG_ERROR | LOG_WARN | LOG_INFO | LOG_DEBUG

datatype arg = Name feature | Text string | Number int

datatype effect =
    Log severity string "arg list"
  | Init feature
  | Start feature
  | Stop feature
  | Disconnect
  | LoggerShutdown

datatype status = Running | Exited int | Aborted

text \<open>
  The globals \<^verbatim>\<open>features\<close> and \<^verbatim>\<open>attemptingShutdown\<close>, with the effects and the status.
\<close>

record process =
  features :: "feature list"
  attemptingShutdown :: bool
  effects :: "effect list"
  status :: status

definition emit :: "effect \<Rightarrow> process \<Rightarrow> process" where
  "emit e s = s\<lparr>effects := effects s @ [e]\<rparr>"

text \<open>
  The body of the loop of \<^verbatim>\<open>shutdown()\<close> over \<^verbatim>\<open>featuresCopy\<close>: a debug line with the
  feature's name, then \<^verbatim>\<open>feature->stop()\<close>. The call into the feature is recorded; what
  the feature reports back arrives as a notification of its own.
\<close>

definition stop_feature :: "process \<Rightarrow> feature \<Rightarrow> process" where
  "stop_feature s feature =
     emit (Stop feature) (emit (Log LOG_DEBUG ''Attempting shutdown of %s'' [Name feature]) s)"

text \<open>
  \<^verbatim>\<open>shutdown()\<close>, lines 30 to 49. The first call sets the flag, copies the registry and
  stops every feature of the copy, then releases the logger; a call that finds the flag set
  releases the logger and leaves through \<^verbatim>\<open>exit(0)\<close>.
\<close>

definition shutdown :: "process \<Rightarrow> process" where
  "shutdown s =
     (if \<not> attemptingShutdown s then
        let s1 = s\<lparr>attemptingShutdown := True\<rparr>;
            featuresCopy = features s1;
            s2 = foldl stop_feature s1 featuresCopy
        in emit LoggerShutdown s2
      else (emit LoggerShutdown s)\<lparr>status := Exited 0\<rparr>)"

text \<open>
  The loop of \<^verbatim>\<open>handle_feature_stopped\<close>, lines 54 to 60: the index \<open>i\<close> runs upwards
  while it is below the current size; an element equal to the handle is erased at \<open>i\<close>,
  and \<open>i\<close> is incremented in either case, so the element that moves into the freed slot is
  not compared. \<^verbatim>\<open>features.at(i)\<close> is read below the size only. The index is an \<^verbatim>\<open>int\<close> in
  the source; the registry holds at most the two handles \<^verbatim>\<open>main\<close> registers, far below the
  range where the conversions to \<^verbatim>\<open>unsigned\<close> and \<^verbatim>\<open>int\<close> would matter.
\<close>

function erase_loop :: "feature \<Rightarrow> nat \<Rightarrow> feature list \<Rightarrow> feature list" where
  "erase_loop feature i fs =
     (if i < length fs
      then erase_loop feature (Suc i)
             (if fs ! i = feature then take i fs @ drop (Suc i) fs else fs)
      else fs)"
  by pat_completeness auto
termination
  by (relation "measure (\<lambda>(feature, i, fs). length fs - i)") auto

declare erase_loop.simps [simp del]

text \<open>
  \<^verbatim>\<open>handle_feature_stopped\<close>, lines 51 to 69. Between \<^verbatim>\<open>lock()\<close> and \<^verbatim>\<open>unlock()\<close> the handle
  is erased and the size is read into \<^verbatim>\<open>size\<close>; after the lock is released, a size of zero
  is logged and \<^verbatim>\<open>shutdown()\<close> is called.
\<close>

definition handle_feature_stopped :: "feature \<Rightarrow> process \<Rightarrow> process" where
  "handle_feature_stopped feature s =
     (let s1 = s\<lparr>features := erase_loop feature 0 (features s)\<rparr>;
          size = int (length (features s1))
      in if 0 = size
         then shutdown (emit (Log LOG_INFO ''All features have stopped'' []) s1)
         else s1)"

text \<open>
  The notification kinds are declared in a header that is not part of the sources at hand;
  both switches have a \<^verbatim>\<open>default\<close> branch, which the third constructor stands for.
\<close>

datatype ClientBaseEventNotification = FEATURE_STARTED | FEATURE_STOPPED | OTHER_EVENT

datatype ClientBaseErrorNotification =
  SUBSCRIPTION_REJECTED | MESSAGE_RECEIVED_AFTER_SHUTDOWN | OTHER_ERROR

text \<open>\<^verbatim>\<open>DefaultClientBaseNotifier::onEvent\<close>, lines 77 to 92.\<close>

definition onEvent :: "feature \<Rightarrow> ClientBaseEventNotification \<Rightarrow> process \<Rightarrow> process" where
  "onEvent feature notification s =
     (case notification of
        FEATURE_STARTED \<Rightarrow>
          emit (Log LOG_INFO ''Client base has been notified that %s has started''
                  [Name feature]) s
      | FEATURE_STOPPED \<Rightarrow>
          handle_feature_stopped feature
            (emit (Log LOG_INFO ''%s has stopped'' [Name feature]) s)
      | OTHER_EVENT \<Rightarrow>
          emit (Log LOG_WARN
                  ''DefaultClientBaseNotifier hit default switch case for feature: %s''
                  [Name feature]) s)"

text \<open>
  \<^verbatim>\<open>DefaultClientBaseNotifier::onError\<close>, lines 94 to 115. The first case ends in
  \<^verbatim>\<open>break\<close>; the second has none and runs on into \<^verbatim>\<open>default\<close>. What follows the switch
  depends on the build: with \<^verbatim>\<open>NDEBUG\<close> defined nothing, without it a fatal line, the
  release of the logger and \<^verbatim>\<open>abort()\<close>, whatever the kind of the error was.
\<close>

definition hit_default_error :: "feature \<Rightarrow> process \<Rightarrow> process" where
  "hit_default_error feature s =
     emit (Log LOG_ERROR
             ''DefaultClientBaseNotifier hit default ERROR switch case for feature: ''
             [Name feature]) s"

definition onError ::
  "bool \<Rightarrow> feature \<Rightarrow> ClientBaseErrorNotification \<Rightarrow> string \<Rightarrow> process \<Rightarrow> process" where
  "onError NDEBUG feature error msg s =
     (let s1 =
        (case error of
           SUBSCRIPTION_REJECTED \<Rightarrow>
             emit (Log LOG_ERROR ''Subscription rejected: %s'' [Text msg]) s
         | MESSAGE_RECEIVED_AFTER_SHUTDOWN \<Rightarrow>
             hit_default_error feature
               (emit (Log LOG_ERROR ''Received message after feature shutdown: %s''
                        [Text msg]) s)
         | OTHER_ERROR \<Rightarrow> hit_default_error feature s)
      in if NDEBUG then s1
         else (emit LoggerShutdown
                 (emit (Log LOG_ERROR
                    ''*** DC FATAL ERROR: Aborting program due to unrecoverable feature error! ***''
                    []) s1))
              \<lparr>status := Aborted\<rparr>)"

text \<open>
  \<^verbatim>\<open>main\<close>, lines 118 to 168, up to the signal loop. The results of
  \<^verbatim>\<open>Config::ParseCliArgs\<close>, \<^verbatim>\<open>config.init\<close> and \<^verbatim>\<open>resourceManager->initialize\<close>, the two
  \<^verbatim>\<open>enabled\<close> flags of the configuration and the addresses of the two feature objects are
  parameters. A failed configuration releases the logger and returns 0; a failed resource
  manager logs, releases the logger and aborts.
\<close>

definition register_feature :: "feature \<Rightarrow> process \<Rightarrow> process" where
  "register_feature feature s = (emit (Init feature) s)\<lparr>features := features s @ [feature]\<rparr>"

definition start_feature :: "process \<Rightarrow> feature \<Rightarrow> process" where
  "start_feature s feature = emit (Start feature) s"

definition initial :: process where
  "initial = \<lparr>features = [], attemptingShutdown = False, effects = [], status = Running\<rparr>"

definition main_startup ::
  "bool \<Rightarrow> bool \<Rightarrow> bool \<Rightarrow> bool \<Rightarrow> bool \<Rightarrow> feature \<Rightarrow> feature \<Rightarrow> process" where
  "main_startup parsed inited initialized jobs_enabled tunneling_enabled jobs tunneling =
     (if \<not> parsed \<or> \<not> inited then (emit LoggerShutdown initial)\<lparr>status := Exited 0\<rparr>
      else if \<not> initialized then
        (emit LoggerShutdown
           (emit (Log LOG_ERROR
              ''*** AWS IOT DEVICE CLIENT FATAL ERROR: Failed to initialize the MQTT Client. Please verify your AWS IoT credentials and/or configuration. ***''
              []) initial))
        \<lparr>status := Aborted\<rparr>
      else
        let s1 = (if jobs_enabled then register_feature jobs initial else initial);
            s2 = (if tunneling_enabled then register_feature tunneling s1 else s1)
        in foldl start_feature s2 (features s2))"

text \<open>
  One turn of the signal loop, lines 171 to 180, after \<^verbatim>\<open>sigwait\<close> has returned a signal.
\<close>

definition SIGINT :: int where
  "SIGINT = 2"

definition on_signal :: "int \<Rightarrow> process \<Rightarrow> process" where
  "on_signal received_signal s =
     (let s1 = emit (Log LOG_INFO ''Received signal: (%d)'' [Number received_signal]) s
      in if SIGINT = received_signal then shutdown (emit Disconnect s1) else s1)"

text \<open>
  What reaches the process while it runs: a notification from a feature, an error from a
  feature, or a signal. A process that has left through \<^verbatim>\<open>exit\<close> or \<^verbatim>\<open>abort\<close> handles
  nothing further.
\<close>

datatype delivery =
    Event feature ClientBaseEventNotification
  | Error feature ClientBaseErrorNotification string
  | Signal int

fun deliver :: "bool \<Rightarrow> delivery \<Rightarrow> process \<Rightarrow> process" where
  "deliver NDEBUG (Event feature notification) s = onEvent feature notification s"
| "deliver NDEBUG (Error feature error msg) s = onError NDEBUG feature error msg s"
| "deliver NDEBUG (Signal received_signal) s = on_signal received_signal s"

fun run :: "bool \<Rightarrow> delivery list \<Rightarrow> process \<Rightarrow> process" where
  "run NDEBUG [] s = s"
| "run NDEBUG (d # ds) s =
     (if status s = Running then run NDEBUG ds (deliver NDEBUG d s) else s)"

text \<open>
  Every call of \<^verbatim>\<open>shutdown()\<close> releases the logger once, on either branch; the calls of
  \<^verbatim>\<open>stop()\<close> and the releases of the logger are read off the effects.
\<close>

definition stops :: "effect list \<Rightarrow> feature list" where
  "stops es = concat (map (\<lambda>e. case e of Stop f \<Rightarrow> [f] | _ \<Rightarrow> []) es)"

definition logger_releases :: "effect list \<Rightarrow> nat" where
  "logger_releases es = length (filter (\<lambda>e. e = LoggerShutdown) es)"

definition stopped_events :: "feature list \<Rightarrow> delivery list" where
  "stopped_events order = map (\<lambda>f. Event f FEATURE_STOPPED) order"

text \<open>The line \<^verbatim>\<open>onEvent\<close> logs for a STOPPED notification, before it handles it.\<close>

definition has_stopped :: "feature \<Rightarrow> effect" where
  "has_stopped f = Log LOG_INFO ''%s has stopped'' [Name f]"

section \<open>The configuration resolver\<close>

text \<open>
  The sources at hand hold the tests of the resolver (\<^verbatim>\<open>test/config/TestConfig.cpp\<close>) but
  not the resolver itself (\<^verbatim>\<open>config/Config.cpp\<close> with \<^verbatim>\<open>PlainConfig::LoadFromJson\<close>,
  \<^verbatim>\<open>LoadFromCliArgs\<close>, \<^verbatim>\<open>LoadFromEnvironment\<close> and \<^verbatim>\<open>Validate\<close>). The definitions of
  this section follow sections 3 and 4.1 of the specification; the inputs
  of the tests are transcribed at the end of the section, and the model is checked against
  what the tests assert.
\<close>

text \<open>
  Modelled from the spec: the fields of \<^verbatim>\<open>ResolvedConfig\<close> that a source layer can supply
  (section 3); the declaration of \<^verbatim>\<open>PlainConfig\<close> is missing.
\<close>

datatype field =
    Endpoint | Cert | Key | RootCa | ThingName
  | LogLevel | LogType | LogFile
  | JobsEnabled
  | TunnelingEnabled | TunnelingRegion | TunnelingToken | TunnelingPort | TunnelingService
  | TunnelingSubscribeNotification
  | DeviceDefenderEnabled | DeviceDefenderInterval
  | FleetProvisioningEnabled

text \<open>
  Modelled from the spec: a value as a layer supplies it, before it is resolved: a string, a
  boolean or a number, as the JSON document, the command line and the environment denote
  them (a port is a number in every layer).
\<close>

datatype raw = Str string | Bool bool | Num int

text \<open>
  Modelled from the spec: \<^verbatim>\<open>RawSourceLayer\<close>, "a partial, optionally-absent view of
  ResolvedConfig fields". The presence-only flag of the command line that disables the
  notification subscription is the entry \<open>TunnelingSubscribeNotification \<mapsto> Bool False\<close>
  of the command line's layer.
\<close>

type_synonym layer = "field \<rightharpoonup> raw"

text \<open>
  Modelled from the spec: the "fixed set of recognized" keys, listed, to decide whether a
  layer supplies anything at all.
\<close>

definition all_fields :: "field list" where
  "all_fields =
     [Endpoint, Cert, Key, RootCa, ThingName, LogLevel, LogType, LogFile, JobsEnabled,
      TunnelingEnabled, TunnelingRegion, TunnelingToken, TunnelingPort, TunnelingService,
      TunnelingSubscribeNotification, DeviceDefenderEnabled, DeviceDefenderInterval,
      FleetProvisioningEnabled]"

text \<open>
  Modelled from the spec: one step of the merge, missing with \<^verbatim>\<open>PlainConfig\<close>'s loaders: "a
  higher-precedence layer overwrites a field only if it explicitly supplies a value; absence
  never overwrites presence".
\<close>

definition overlay :: "layer \<Rightarrow> layer \<Rightarrow> layer" where
  "overlay lower higher = (\<lambda>k. case higher k of Some v \<Rightarrow> Some v | None \<Rightarrow> lower k)"

text \<open>
  Modelled from the spec: the merge of the four layers, missing with \<^verbatim>\<open>Config::init\<close>:
  "built-in defaults < file-based JSON < CLI arguments < environment variables, applied
  field-by-field". The layers are applied in this order, as the tests call the loaders. The
  access token of the tunnel is merged like every field: the environment comes last, so a
  token it supplies replaces the token of every earlier layer.
\<close>

definition merge_layers :: "layer \<Rightarrow> layer \<Rightarrow> layer \<Rightarrow> layer \<Rightarrow> layer" where
  "merge_layers defaults file cli env = overlay (overlay (overlay defaults file) cli) env"

text \<open>
  Modelled from the spec: the rule in the words of the specification, to compare the merge
  with: of the values the layers hold for one field, listed from the highest precedence
  down, the first one that is supplied.
\<close>

fun highest_supplied :: "'a option list \<Rightarrow> 'a option" where
  "highest_supplied [] = None"
| "highest_supplied (None # vs) = highest_supplied vs"
| "highest_supplied (Some v # vs) = Some v"

text \<open>
  Modelled from the spec: the built-in defaults, missing with \<^verbatim>\<open>PlainConfig\<close>'s constructor:
  "jobs/tunneling/device-defender default to enabled; fleet-provisioning defaults to
  disabled", and "\<^verbatim>\<open>subscribeNotification\<close> defaults to true".
\<close>

definition builtin_defaults :: layer where
  "builtin_defaults =
     [JobsEnabled \<mapsto> Bool True, TunnelingEnabled \<mapsto> Bool True,
      DeviceDefenderEnabled \<mapsto> Bool True, FleetProvisioningEnabled \<mapsto> Bool False,
      TunnelingSubscribeNotification \<mapsto> Bool True]"

text \<open>
  Modelled from the spec: the case folding behind "map case-insensitively", missing with the
  parser of the log level: an ASCII capital letter (codes 65 to 90) gets bit 5 set, which
  adds 32; every other character is kept.
\<close>

definition to_lower :: "char \<Rightarrow> char" where
  "to_lower ch =
     (if 65 \<le> (of_char ch :: nat) \<and> (of_char ch :: nat) \<le> 90
      then (case ch of Char b0 b1 b2 b3 b4 b5 b6 b7 \<Rightarrow> Char b0 b1 b2 b3 b4 True b6 b7)
      else ch)"

text \<open>
  Modelled from the spec: the parser of the log level, missing with \<^verbatim>\<open>Config.cpp\<close>: "Log
  level strings map case-insensitively to an ordinal severity (e.g. error=0, warn=1, info=2,
  debug=3)"; a string outside this vocabulary has no ordinal.
\<close>

definition ParseLogLevel :: "string \<Rightarrow> nat option" where
  "ParseLogLevel s =
     (let l = map to_lower s
      in if l = ''error'' then Some 0
         else if l = ''warn'' then Some 1
         else if l = ''info'' then Some 2
         else if l = ''debug'' then Some 3
         else None)"

text \<open>
  Modelled from the spec: reading a merged field at the type the resolved structure gives
  it, here a string; a value of another type counts as not supplied.
\<close>

definition str_at :: "layer \<Rightarrow> field \<Rightarrow> string option" where
  "str_at m k = (case m k of Some (Str s) \<Rightarrow> Some s | _ \<Rightarrow> None)"

text \<open>Modelled from the spec: reading a merged field as a number, likewise.\<close>

definition num_at :: "layer \<Rightarrow> field \<Rightarrow> int option" where
  "num_at m k = (case m k of Some (Num n) \<Rightarrow> Some n | _ \<Rightarrow> None)"

text \<open>
  Modelled from the spec: reading a merged field as a flag; a flag that no layer supplies is
  off (the built-in defaults supply every flag of the resolved structure).
\<close>

definition flag_at :: "layer \<Rightarrow> field \<Rightarrow> bool" where
  "flag_at m k = (case m k of Some (Bool b) \<Rightarrow> b | _ \<Rightarrow> False)"

text \<open>
  Modelled from the spec: \<^verbatim>\<open>ResolvedConfig\<close> of section 3, whose declaration
  (\<^verbatim>\<open>PlainConfig\<close>) is missing: the identity fields, "each optional until validated", and
  the sub-configurations \<^verbatim>\<open>LogConfig {level, sinkType, filePath}\<close>, \<^verbatim>\<open>JobsConfig\<close>,
  \<^verbatim>\<open>TunnelingConfig\<close>, \<^verbatim>\<open>DeviceDefenderConfig\<close> and \<^verbatim>\<open>FleetProvisioningConfig\<close>, their
  fields prefixed with the name of the sub-configuration.
\<close>

record ResolvedConfig =
  endpoint :: "string option"
  cert :: "string option"
  key :: "string option"
  rootCa :: "string option"
  thingName :: "string option"
  log_level :: "nat option"
  log_sinkType :: "string option"
  log_filePath :: "string option"
  jobs_enabled :: bool
  tunneling_enabled :: bool
  tunneling_region :: "string option"
  tunneling_destinationAccessToken :: "string option"
  tunneling_port :: "int option"
  tunneling_service :: "string option"
  tunneling_subscribeNotification :: bool
  deviceDefender_enabled :: bool
  deviceDefender_intervalSeconds :: "int option"
  fleetProvisioning_enabled :: bool

text \<open>
  Modelled from the spec: the static lookup from a service to its port,
  \<^verbatim>\<open>SecureTunnelingFeature::GetPortFromService\<close>, which is missing. The entry "SSH" to 22 is
  the one the specification names and the test \<^verbatim>\<open>SecureTunnelingCli\<close> checks; what the
  table holds for any other service is the parameter \<open>others\<close>.
\<close>

definition GetPortFromService :: "(string \<rightharpoonup> int) \<Rightarrow> string \<Rightarrow> int option" where
  "GetPortFromService others service = (if service = ''SSH'' then Some 22 else others service)"

text \<open>
  Modelled from the spec: the port of the tunnel. "If a service name is supplied without an
  explicit port, the port is derived from a static service-to-port lookup", and "an explicit
  port always takes precedence over the derived one": whenever the merge holds a value for
  the port, the service is not consulted, also when that value is not a number and gives no
  port.
\<close>

definition resolve_port :: "(string \<rightharpoonup> int) \<Rightarrow> layer \<Rightarrow> int option" where
  "resolve_port others m =
     (case m TunnelingPort of
        Some v \<Rightarrow> (case v of Num p \<Rightarrow> Some p | _ \<Rightarrow> None)
      | None \<Rightarrow> Option.bind (str_at m TunnelingService) (GetPortFromService others))"

text \<open>
  Modelled from the spec: the resolved structure read off the merged layer, missing with
  \<^verbatim>\<open>PlainConfig\<close>'s loaders. The log level is resolved to its ordinal and the sink type to
  lower case (the scenario of section 8 resolves "FILE" to "file"). The entries of the
  lookup table beyond "SSH" are the parameter \<open>service_port\<close>.
\<close>

definition build :: "(string \<rightharpoonup> int) \<Rightarrow> layer \<Rightarrow> ResolvedConfig" where
  "build service_port m =
     \<lparr>endpoint = str_at m Endpoint,
      cert = str_at m Cert,
      key = str_at m Key,
      rootCa = str_at m RootCa,
      thingName = str_at m ThingName,
      log_level = Option.bind (str_at m LogLevel) ParseLogLevel,
      log_sinkType = map_option (map to_lower) (str_at m LogType),
      log_filePath = str_at m LogFile,
      jobs_enabled = flag_at m JobsEnabled,
      tunneling_enabled = flag_at m TunnelingEnabled,
      tunneling_region = str_at m TunnelingRegion,
      tunneling_destinationAccessToken = str_at m TunnelingToken,
      tunneling_port = resolve_port service_port m,
      tunneling_service = str_at m TunnelingService,
      tunneling_subscribeNotification = flag_at m TunnelingSubscribeNotification,
      deviceDefender_enabled = flag_at m DeviceDefenderEnabled,
      deviceDefender_intervalSeconds = num_at m DeviceDefenderInterval,
      fleetProvisioning_enabled = flag_at m FleetProvisioningEnabled\<rparr>"

text \<open>
  Modelled from the spec: the build or deployment mode, which the tests switch with the
  macro \<^verbatim>\<open>DISABLE_MQTT\<close>: the standard mode, or the tunneling-only mode.
\<close>

datatype mode = Standard | TunnelingOnly

text \<open>
  Modelled from the spec: the identity rule, missing with \<^verbatim>\<open>PlainConfig::Validate\<close>:
  "Top-level identity fields (endpoint, cert, key, root-ca, thing/device name) are
  required".
\<close>

definition identity_present :: "ResolvedConfig \<Rightarrow> bool" where
  "identity_present c =
     (endpoint c \<noteq> None \<and> cert c \<noteq> None \<and> key c \<noteq> None \<and> rootCa c \<noteq> None
      \<and> thingName c \<noteq> None)"

text \<open>
  Modelled from the spec: the tunneling rule, missing with \<^verbatim>\<open>PlainConfig::Validate\<close>: "if
  neither [a port nor a service] is resolvable, validation fails when tunneling is enabled".
  The tests \<^verbatim>\<open>AllFeaturesEnabled\<close>, \<^verbatim>\<open>HappyCaseMinimumConfig\<close>, \<^verbatim>\<open>HappyCaseMinimumCli\<close>
  and \<^verbatim>\<open>SecureTunnelingMinimumConfig\<close> (and \<^verbatim>\<open>MissingSomeSettings\<close> in the tunneling-only
  build) assert \<^verbatim>\<open>Validate()\<close> of a configuration that has tunneling enabled and supplies
  neither a port nor a service. The rule of the specification is kept for every other
  configuration: validation fails when tunneling is enabled, a service is named and no port
  is resolved.
\<close>

definition tunneling_valid :: "ResolvedConfig \<Rightarrow> bool" where
  "tunneling_valid c =
     (if tunneling_enabled c \<and> tunneling_port c = None
      then tunneling_service c = None
      else True)"

text \<open>
  Modelled from the spec: \<^verbatim>\<open>PlainConfig::Validate\<close>, which is missing: the identity fields
  "are required UNLESS the build/deployment mode is tunneling-only, in which case only
  tunneling-relevant fields are required".
\<close>

definition Validate :: "mode \<Rightarrow> ResolvedConfig \<Rightarrow> bool" where
  "Validate mode c =
     ((if mode = TunnelingOnly then True else identity_present c) \<and> tunneling_valid c)"

text \<open>
  Modelled from the spec: whether a layer supplies any value, for the rule "If no file and
  no CLI/env values are present at all, fail" of section 4.1, missing with \<^verbatim>\<open>Config::init\<close>.
\<close>

definition supplied :: "layer \<Rightarrow> bool" where
  "supplied l = list_ex (\<lambda>k. l k \<noteq> None) all_fields"

text \<open>
  Modelled from the spec: the rule "unrecognized [log level] strings fail validation" of
  section 4.1, missing with the parser of the log level, on the level the merge holds.
\<close>

definition level_recognized :: "layer \<Rightarrow> bool" where
  "level_recognized m =
     (case str_at m LogLevel of None \<Rightarrow> True | Some s \<Rightarrow> ParseLogLevel s \<noteq> None)"

text \<open>
  Modelled from the spec: the contract \<^verbatim>\<open>resolve(fileJson, cliArgs, env) -> (ResolvedConfig,
  ok)\<close> of section 4.1, missing with \<^verbatim>\<open>Config::init\<close>. The mode, the lookup table and the
  layer of defaults are parameters as well.
\<close>

definition resolve ::
  "mode \<Rightarrow> (string \<rightharpoonup> int) \<Rightarrow> layer \<Rightarrow> layer \<Rightarrow> layer \<Rightarrow> layer \<Rightarrow> ResolvedConfig \<times> bool" where
  "resolve mode service_port defaults file cli env =
     (let m = merge_layers defaults file cli env;
          c = build service_port m
      in (c, (supplied file \<or> supplied cli \<or> supplied env)
             \<and> level_recognized m \<and> Validate mode c))"

text \<open>
  Modelled from the spec: a table for the entries of the lookup beyond the fixed one, used
  where the tests are replayed; it repeats the entry the specification names, "SSH" to 22.
\<close>

definition named_service_ports :: "string \<rightharpoonup> int" where
  "named_service_ports = [''SSH'' \<mapsto> 22]"

subsection \<open>The inputs of the tests\<close>

text \<open>
  The JSON documents, command lines and environment of \<^verbatim>\<open>TestConfig.cpp\<close>, as layers:
  \<^verbatim>\<open>AllFeaturesEnabled\<close> (lines 15 to 37),
  \<^verbatim>\<open>HappyCaseMinimumConfig\<close> (61 to 68), \<^verbatim>\<open>MissingSomeSettings\<close> (113 to 120),
  \<^verbatim>\<open>SecureTunnelingMinimumConfig\<close> and \<^verbatim>\<open>SecureTunnelingCli\<close> (137 to 147, 161 to 180) and
  \<^verbatim>\<open>LoggingConfigurationCLI\<close> (235 to 254).
\<close>

definition json_minimum :: layer where
  "json_minimum =
     [Endpoint \<mapsto> Str ''endpoint value'', Cert \<mapsto> Str ''cert'', Key \<mapsto> Str ''key'',
      RootCa \<mapsto> Str ''root-ca'', ThingName \<mapsto> Str ''thing-name value'']"


definition json_tunneling :: layer where
  "json_tunneling = json_minimum(TunnelingEnabled \<mapsto> Bool True)"

definition cli_tunneling :: layer where
  "cli_tunneling =
     [TunnelingRegion \<mapsto> Str ''region value'', TunnelingService \<mapsto> Str ''SSH'',
      TunnelingSubscribeNotification \<mapsto> Bool False]"

definition env_tunneling :: layer where
  "env_tunneling = [TunnelingToken \<mapsto> Str ''destination_access_token_value'']"

definition json_logging :: layer where
  "json_logging =
     json_minimum(LogLevel \<mapsto> Str ''DEBUG'', LogType \<mapsto> Str ''STDOUT'',
                  LogFile \<mapsto> Str ''old-json-log.log'')"

definition json_all_features :: layer where
  "json_all_features =
     json_minimum(LogLevel \<mapsto> Str ''debug'', LogType \<mapsto> Str ''file'',
                  LogFile \<mapsto> Str ''./aws-iot-device-client.log'',
                  JobsEnabled \<mapsto> Bool True, TunnelingEnabled \<mapsto> Bool True,
                  DeviceDefenderEnabled \<mapsto> Bool True, DeviceDefenderInterval \<mapsto> Num 300)"

definition cli_logging :: layer where
  "cli_logging =
     [LogLevel \<mapsto> Str ''warn'', LogType \<mapsto> Str ''FILE'', LogFile \<mapsto> Str ''./client.log'']"

section \<open>Properties of the lifecycle\<close>

lemma features_emit [simp]: "features (emit e s) = features s"
  by (simp add: emit_def)

lemma attemptingShutdown_emit [simp]: "attemptingShutdown (emit e s) = attemptingShutdown s"
  by (simp add: emit_def)

lemma status_emit [simp]: "status (emit e s) = status s"
  by (simp add: emit_def)

lemma effects_emit [simp]: "effects (emit e s) = effects s @ [e]"
  by (simp add: emit_def)

lemma erase_loop_absent: "feature \<notin> set fs \<Longrightarrow> erase_loop feature i fs = fs"
proof (induction feature i fs rule: erase_loop.induct)
  case (1 feature i fs)
  show ?case
  proof (cases "i < length fs")
    case True
    with "1.prems" have ne: "fs ! i \<noteq> feature" by (metis nth_mem)
    with True "1.IH" "1.prems" have "erase_loop feature (Suc i) fs = fs" by simp
    with True ne show ?thesis by (subst erase_loop.simps) simp
  next
    case False
    then show ?thesis by (subst erase_loop.simps) simp
  qed
qed

lemma erase_loop_distinct:
  "distinct fs \<Longrightarrow> erase_loop feature i fs = take i fs @ removeAll feature (drop i fs)"
proof (induction feature i fs rule: erase_loop.induct)
  case (1 feature i fs)
  show ?case
  proof (cases "i < length fs")
    case False
    then show ?thesis by (subst erase_loop.simps) simp
  next
    case True
    then have split: "drop i fs = fs ! i # drop (Suc i) fs"
      by (simp add: Cons_nth_drop_Suc)
    have fs: "fs = take i fs @ fs ! i # drop (Suc i) fs"
      using True by (simp add: id_take_nth_drop [symmetric])
    show ?thesis
    proof (cases "fs ! i = feature")
      case hit: True
      from "1.prems" fs have d: "distinct (take i fs @ fs ! i # drop (Suc i) fs)" by simp
      then have absent: "feature \<notin> set (take i fs @ drop (Suc i) fs)"
        using hit by auto
      then have "erase_loop feature (Suc i) (take i fs @ drop (Suc i) fs)
                   = take i fs @ drop (Suc i) fs"
        by (rule erase_loop_absent)
      moreover from absent have "removeAll feature (drop (Suc i) fs) = drop (Suc i) fs"
        by simp
      ultimately show ?thesis
        using True hit split by (subst erase_loop.simps) simp
    next
      case miss: False
      with True "1.IH" "1.prems"
      have "erase_loop feature (Suc i) fs = take (Suc i) fs @ removeAll feature (drop (Suc i) fs)"
        by simp
      then show ?thesis
        using True miss split by (subst erase_loop.simps) (simp add: take_Suc_conv_app_nth)
    qed
  qed
qed

lemma erase_loop_0_distinct: "distinct fs \<Longrightarrow> erase_loop feature 0 fs = removeAll feature fs"
  by (simp add: erase_loop_distinct)


lemma features_foldl_stop [simp]: "features (foldl stop_feature s fs) = features s"
  by (induction fs arbitrary: s) (simp_all add: stop_feature_def)

lemma attemptingShutdown_foldl_stop [simp]:
  "attemptingShutdown (foldl stop_feature s fs) = attemptingShutdown s"
  by (induction fs arbitrary: s) (simp_all add: stop_feature_def)

lemma status_foldl_stop [simp]: "status (foldl stop_feature s fs) = status s"
  by (induction fs arbitrary: s) (simp_all add: stop_feature_def)

lemma stops_append [simp]: "stops (xs @ ys) = stops xs @ stops ys"
  by (simp add: stops_def)

lemma logger_releases_append [simp]:
  "logger_releases (xs @ ys) = logger_releases xs + logger_releases ys"
  by (simp add: logger_releases_def)

lemma logger_releases_Nil [simp]: "logger_releases [] = 0"
  by (simp add: logger_releases_def)

lemma logger_releases_Cons [simp]:
  "logger_releases (e # es) = (if e = LoggerShutdown then 1 else 0) + logger_releases es"
  by (simp add: logger_releases_def)

lemma stops_foldl_stop [simp]:
  "stops (effects (foldl stop_feature s fs)) = stops (effects s) @ fs"
  by (induction fs arbitrary: s) (simp_all add: stop_feature_def stops_def)

lemma logger_releases_foldl_stop [simp]:
  "logger_releases (effects (foldl stop_feature s fs)) = logger_releases (effects s)"
  by (induction fs arbitrary: s) (simp_all add: stop_feature_def)

lemma features_shutdown [simp]: "features (shutdown s) = features s"
  by (simp add: shutdown_def Let_def)

lemma attemptingShutdown_shutdown [simp]: "attemptingShutdown (shutdown s)"
  by (simp add: shutdown_def Let_def)

lemma logger_releases_shutdown [simp]:
  "logger_releases (effects (shutdown s)) = logger_releases (effects s) + 1"
  by (simp add: shutdown_def Let_def)

lemma shutdown_again:
  "attemptingShutdown s \<Longrightarrow> shutdown s = (emit LoggerShutdown s)\<lparr>status := Exited 0\<rparr>"
  by (simp add: shutdown_def)

lemma shutdown_first:
  "\<not> attemptingShutdown s \<Longrightarrow>
   shutdown s = emit LoggerShutdown (foldl stop_feature (s\<lparr>attemptingShutdown := True\<rparr>) (features s))"
  by (simp add: shutdown_def Let_def)

lemma run_append: "run NDEBUG (xs @ ys) s = run NDEBUG ys (run NDEBUG xs s)"
proof (induction xs arbitrary: s)
  case Nil
  show ?case by simp
next
  case (Cons d xs)
  show ?case
  proof (cases "status s = Running")
    case True
    with Cons show ?thesis by simp
  next
    case False
    then show ?thesis by (cases ys) simp_all
  qed
qed

text \<open>A STOPPED event for a registered feature that is not the last one.\<close>

lemma stopped_not_last:
  assumes "distinct (features s)" and "removeAll f (features s) \<noteq> []"
  shows "onEvent f FEATURE_STOPPED s =
           s\<lparr>features := removeAll f (features s),
              effects := effects s @ [Log LOG_INFO ''%s has stopped'' [Name f]]\<rparr>"
  using assms
  by (simp add: onEvent_def handle_feature_stopped_def Let_def erase_loop_0_distinct emit_def)

lemma stopped_last:
  assumes "distinct (features s)" and "removeAll f (features s) = []"
  shows "onEvent f FEATURE_STOPPED s =
           shutdown (s\<lparr>features := [],
              effects := effects s @ [Log LOG_INFO ''%s has stopped'' [Name f],
                                      Log LOG_INFO ''All features have stopped'' []]\<rparr>)"
  using assms
  by (simp add: onEvent_def handle_feature_stopped_def Let_def erase_loop_0_distinct emit_def)

lemma run_stopped_some:
  assumes "distinct (features s)" and "status s = Running" and "distinct order"
    and "\<exists>f \<in> set (features s). f \<notin> set order"
  shows "run NDEBUG (stopped_events order) s =
           s\<lparr>features := filter (\<lambda>f. f \<notin> set order) (features s),
              effects := effects s @ map has_stopped order\<rparr>"
  using assms
proof (induction order arbitrary: s)
  case Nil
  then show ?case by (simp add: stopped_events_def)
next
  case (Cons f order)
  let ?s' = "s\<lparr>features := removeAll f (features s),
              effects := effects s @ [Log LOG_INFO ''%s has stopped'' [Name f]]\<rparr>"
  from Cons.prems(4) have ne: "removeAll f (features s) \<noteq> []"
    by (auto simp: filter_empty_conv removeAll_filter_not_eq)
  with Cons.prems(1) have step: "onEvent f FEATURE_STOPPED s = ?s'"
    by (rule stopped_not_last)
  have "run NDEBUG (stopped_events order) ?s' =
          ?s'\<lparr>features := filter (\<lambda>f. f \<notin> set order) (features ?s'),
               effects := effects ?s' @ map has_stopped order\<rparr>"
    using Cons.prems by (intro Cons.IH) (auto simp: distinct_removeAll)
  moreover have "filter (\<lambda>g. g \<notin> set order) (removeAll f (features s))
                   = filter (\<lambda>g. g \<notin> set (f # order)) (features s)"
    by (induction "features s") (auto simp: removeAll_filter_not_eq intro: filter_cong)
  ultimately show ?case
    using Cons.prems(2) step by (simp add: stopped_events_def has_stopped_def)
qed

lemma distinct_singleton_set: "distinct xs \<Longrightarrow> set xs = {x} \<Longrightarrow> xs = [x]"
  by (cases xs) (auto simp: distinct_length_2_or_more dest: subset_singletonD)

lemma run_stopped_all:
  assumes "distinct (features s)" and "features s \<noteq> []" and "status s = Running"
    and "distinct order" and "set order = set (features s)"
  shows "run NDEBUG (stopped_events order) s =
           shutdown (s\<lparr>features := [],
              effects := effects s @ map has_stopped order
                           @ [Log LOG_INFO ''All features have stopped'' []]\<rparr>)"
proof -
  from assms have "order \<noteq> []" by auto
  then obtain pre lst where order: "order = pre @ [lst]"
    by (metis rev_exhaust)
  with assms have lst: "lst \<in> set (features s)" "lst \<notin> set pre" "distinct pre" by auto
  let ?mid = "s\<lparr>features := filter (\<lambda>f. f \<notin> set pre) (features s),
                effects := effects s @ map has_stopped pre\<rparr>"
  have pre: "run NDEBUG (stopped_events pre) s = ?mid"
    using assms lst by (intro run_stopped_some) auto
  have "set (filter (\<lambda>f. f \<notin> set pre) (features s)) = {lst}"
    using assms order by auto
  with assms(1) have only: "filter (\<lambda>f. f \<notin> set pre) (features s) = [lst]"
    by (intro distinct_singleton_set) auto
  have "onEvent lst FEATURE_STOPPED ?mid =
          shutdown (?mid\<lparr>features := [],
              effects := effects ?mid @ [Log LOG_INFO ''%s has stopped'' [Name lst],
                                      Log LOG_INFO ''All features have stopped'' []]\<rparr>)"
    by (rule stopped_last) (simp_all add: only)
  then show ?thesis
    using pre assms(3)
    by (simp add: order stopped_events_def run_append has_stopped_def)
qed


lemma stops_Nil [simp]: "stops [] = []"
  by (simp add: stops_def)

lemma stops_Cons [simp]:
  "stops (e # es) = (case e of Stop f \<Rightarrow> [f] | _ \<Rightarrow> []) @ stops es"
  by (simp add: stops_def)

lemma status_shutdown_first: "\<not> attemptingShutdown s \<Longrightarrow> status (shutdown s) = status s"
  by (simp add: shutdown_first)

lemma stops_shutdown_first:
  "\<not> attemptingShutdown s \<Longrightarrow> stops (effects (shutdown s)) = stops (effects s) @ features s"
  by (simp add: shutdown_first)

lemma stops_shutdown_again:
  "attemptingShutdown s \<Longrightarrow> stops (effects (shutdown s)) = stops (effects s)"
  by (simp add: shutdown_again)

lemma deliver_after_flag:
  assumes "attemptingShutdown s"
  shows "attemptingShutdown (deliver NDEBUG d s)
       \<and> stops (effects (deliver NDEBUG d s)) = stops (effects s)"
proof (cases d)
  case (Event feature notification)
  with assms show ?thesis
    by (cases notification)
       (simp_all add: onEvent_def handle_feature_stopped_def Let_def stops_shutdown_again)
next
  case (Error feature error msg)
  with assms show ?thesis
    by (cases error) (simp_all add: onError_def hit_default_error_def Let_def)
next
  case (Signal received_signal)
  with assms show ?thesis
    by (simp add: on_signal_def Let_def stops_shutdown_again)
qed

lemma run_after_flag:
  "attemptingShutdown s \<Longrightarrow>
   attemptingShutdown (run NDEBUG ds s) \<and> stops (effects (run NDEBUG ds s)) = stops (effects s)"
proof (induction ds arbitrary: s)
  case Nil
  then show ?case by simp
next
  case (Cons d ds)
  from Cons.prems deliver_after_flag [of s NDEBUG d]
  have "attemptingShutdown (deliver NDEBUG d s)"
    and "stops (effects (deliver NDEBUG d s)) = stops (effects s)" by simp_all
  with Cons.IH [of "deliver NDEBUG d s"] Cons.prems show ?case by simp
qed

text \<open>
  C1. Let the registry hold the distinct handles \<open>fs\<close>, at least one, and let a STOPPED
  notification be delivered for each of them, in any order. Then \<^verbatim>\<open>shutdown()\<close> has been
  called exactly once: the run is one call of \<^verbatim>\<open>shutdown()\<close> on the state with the
  registry emptied and the lines of the notifications logged; the logger, which every call
  of \<^verbatim>\<open>shutdown()\<close> releases once, has been released once more than before; the registry
  is empty and the flag is set. After
  any proper part of the deliveries \<^verbatim>\<open>shutdown()\<close> has not been called, and the registry
  holds the handles that have not reported yet: only the delivery that empties the registry
  calls \<^verbatim>\<open>shutdown()\<close>. The order of the deliveries is the order in which the handlers
  pass the section between \<^verbatim>\<open>lock()\<close> and \<^verbatim>\<open>unlock()\<close>, where the handle is erased and
  the size is read.
\<close>

theorem all_stopped_shutdown_once:
  assumes "distinct fs" and "fs \<noteq> []" and "features s = fs" and "status s = Running"
    and "distinct order" and "set order = set fs"
  shows "run NDEBUG (stopped_events order) s
           = shutdown (s\<lparr>features := [],
               effects := effects s @ map has_stopped order
                            @ [Log LOG_INFO ''All features have stopped'' []]\<rparr>)
       \<and> logger_releases (effects (run NDEBUG (stopped_events order) s))
           = logger_releases (effects s) + 1
       \<and> features (run NDEBUG (stopped_events order) s) = []
       \<and> attemptingShutdown (run NDEBUG (stopped_events order) s)
       \<and> (\<forall>pre suf. order = pre @ suf \<and> suf \<noteq> [] \<longrightarrow>
            logger_releases (effects (run NDEBUG (stopped_events pre) s))
              = logger_releases (effects s)
          \<and> features (run NDEBUG (stopped_events pre) s) = filter (\<lambda>f. f \<notin> set pre) fs)"
proof -
  have all: "run NDEBUG (stopped_events order) s =
           shutdown (s\<lparr>features := [],
              effects := effects s @ map has_stopped order
                           @ [Log LOG_INFO ''All features have stopped'' []]\<rparr>)"
    using assms by (intro run_stopped_all) simp_all
  have quiet: "logger_releases (map has_stopped xs) = 0" for xs
    by (induction xs) (simp_all add: has_stopped_def)
  have part: "logger_releases (effects (run NDEBUG (stopped_events pre) s))
              = logger_releases (effects s)
          \<and> features (run NDEBUG (stopped_events pre) s) = filter (\<lambda>f. f \<notin> set pre) fs"
    if "order = pre @ suf" and "suf \<noteq> []" for pre suf
  proof -
    from that(2) obtain y where y: "y \<in> set suf" by (cases suf) auto
    from that(1) assms(5) have "distinct pre" and "set pre \<inter> set suf = {}" by simp_all
    with y that(1) assms(3,6)
    have "distinct pre" and "\<exists>f \<in> set (features s). f \<notin> set pre"
      by auto
    with assms have "run NDEBUG (stopped_events pre) s =
           s\<lparr>features := filter (\<lambda>f. f \<notin> set pre) (features s),
              effects := effects s @ map has_stopped pre\<rparr>"
      by (intro run_stopped_some) simp_all
    with assms show ?thesis by (simp add: quiet)
  qed
  from all part show ?thesis by (simp add: quiet)
qed

theorem all_stopped_shutdown_once_witness:
  "logger_releases (effects (run True (stopped_events [2, 1])
      (main_startup True True True True True 1 2))) = 1
   \<and> features (run True (stopped_events [2, 1])
      (main_startup True True True True True 1 2)) = []"
proof -
  let ?s0 = "main_startup True True True True True 1 2"
  have s0: "?s0 = \<lparr>features = [1, 2], attemptingShutdown = False,
                     effects = [Init 1, Init 2, Start 1, Start 2], status = Running\<rparr>"
    by (simp add: main_startup_def initial_def register_feature_def start_feature_def emit_def)
  have "distinct [1, 2 :: nat]" and "[1, 2 :: nat] \<noteq> []" and "features ?s0 = [1, 2]"
    and "status ?s0 = Running" and "distinct [2, 1 :: nat]"
    and "set [2, 1 :: nat] = set [1, 2]"
    unfolding s0 by auto
  from all_stopped_shutdown_once [OF this, of True]
  have "logger_releases (effects (run True (stopped_events [2, 1]) ?s0))
          = logger_releases (effects ?s0) + 1"
    and "features (run True (stopped_events [2, 1]) ?s0) = []"
    by blast+
  then show ?thesis
    unfolding s0 by simp
qed

text \<open>
  C2. The first call of \<^verbatim>\<open>shutdown()\<close> calls \<^verbatim>\<open>stop()\<close> on every handle of the registry,
  in order, and sets the flag. Whatever is delivered afterwards, the flag stays set, and a
  further call of \<^verbatim>\<open>shutdown()\<close> does nothing but release the logger and leave through
  \<^verbatim>\<open>exit(0)\<close>: the calls of \<^verbatim>\<open>stop()\<close> are those of the first call.
\<close>

theorem second_shutdown_stops_nothing:
  assumes "\<not> attemptingShutdown s"
  shows "stops (effects (shutdown s)) = stops (effects s) @ features s
       \<and> attemptingShutdown (run NDEBUG ds (shutdown s))
       \<and> shutdown (run NDEBUG ds (shutdown s))
           = (emit LoggerShutdown (run NDEBUG ds (shutdown s)))\<lparr>status := Exited 0\<rparr>
       \<and> stops (effects (shutdown (run NDEBUG ds (shutdown s))))
           = stops (effects (shutdown s))"
proof -
  have flag: "attemptingShutdown (shutdown s)" by simp
  from run_after_flag [OF flag, of NDEBUG ds]
  have later: "attemptingShutdown (run NDEBUG ds (shutdown s))"
    and same: "stops (effects (run NDEBUG ds (shutdown s))) = stops (effects (shutdown s))"
    by simp_all
  from later have "shutdown (run NDEBUG ds (shutdown s))
           = (emit LoggerShutdown (run NDEBUG ds (shutdown s)))\<lparr>status := Exited 0\<rparr>"
    by (rule shutdown_again)
  with assms later same show ?thesis
    by (simp add: stops_shutdown_first stops_shutdown_again)
qed

theorem second_shutdown_stops_nothing_witness:
  "stops (effects (shutdown (main_startup True True True True True 1 2))) = [1, 2]
   \<and> stops (effects (shutdown (shutdown (main_startup True True True True True 1 2)))) = [1, 2]
   \<and> status (shutdown (shutdown (main_startup True True True True True 1 2))) = Exited 0"
  using second_shutdown_stops_nothing [of "main_startup True True True True True 1 2" True "[]"]
  by (simp add: main_startup_def initial_def register_feature_def start_feature_def)

text \<open>
  In a build without \<^verbatim>\<open>NDEBUG\<close> a rejected subscription ends the process: the code after
  the switch of \<^verbatim>\<open>onError\<close> runs for every kind of error.
\<close>

theorem subscription_rejected_aborts_debug_build:
  "status (onError False 1 SUBSCRIPTION_REJECTED ''rejected''
     (main_startup True True True True True 1 2)) = Aborted"
  by (simp add: onError_def)

text \<open>
  C3, as amended. An \<^verbatim>\<open>onError\<close> notification of kind SUBSCRIPTION_REJECTED logs the
  error. In a build with \<^verbatim>\<open>NDEBUG\<close> that is all: the registry, the flag and the status are
  unchanged, for every feature, message and state. In a build without \<^verbatim>\<open>NDEBUG\<close> the
  process then logs a fatal error, releases the logger and aborts.
\<close>

theorem subscription_rejected_by_build:
  "onError True feature SUBSCRIPTION_REJECTED msg s
     = s\<lparr>effects := effects s @ [Log LOG_ERROR ''Subscription rejected: %s'' [Text msg]]\<rparr>
   \<and> onError False feature SUBSCRIPTION_REJECTED msg s
     = s\<lparr>effects := effects s @
           [Log LOG_ERROR ''Subscription rejected: %s'' [Text msg],
            Log LOG_ERROR
              ''*** DC FATAL ERROR: Aborting program due to unrecoverable feature error! ***'' [],
            LoggerShutdown],
          status := Aborted\<rparr>"
  by (simp add: onError_def emit_def)

text \<open>
  C4. An \<^verbatim>\<open>onError\<close> notification of kind MESSAGE_RECEIVED_AFTER_SHUTDOWN logs the error
  (and, the case having no \<^verbatim>\<open>break\<close>, the line of the default case). In a build without
  \<^verbatim>\<open>NDEBUG\<close> the process then logs a fatal error, releases the logger and aborts; in a
  build with \<^verbatim>\<open>NDEBUG\<close> it only logs, and the registry, the flag and the status are
  unchanged.
\<close>

theorem message_after_shutdown_by_build:
  "onError False feature MESSAGE_RECEIVED_AFTER_SHUTDOWN msg s
     = s\<lparr>effects := effects s @
           [Log LOG_ERROR ''Received message after feature shutdown: %s'' [Text msg],
            Log LOG_ERROR
              ''DefaultClientBaseNotifier hit default ERROR switch case for feature: ''
              [Name feature],
            Log LOG_ERROR
              ''*** DC FATAL ERROR: Aborting program due to unrecoverable feature error! ***'' [],
            LoggerShutdown],
          status := Aborted\<rparr>
   \<and> onError True feature MESSAGE_RECEIVED_AFTER_SHUTDOWN msg s
     = s\<lparr>effects := effects s @
           [Log LOG_ERROR ''Received message after feature shutdown: %s'' [Text msg],
            Log LOG_ERROR
              ''DefaultClientBaseNotifier hit default ERROR switch case for feature: ''
              [Name feature]]\<rparr>"
  by (simp add: onError_def hit_default_error_def emit_def)

text \<open>
  C9. A STOPPED delivery for a handle that is not in the registry leaves the registry as it
  is. If the registry is not empty, nothing else happens either; if it is empty, the size
  read is zero and \<^verbatim>\<open>shutdown()\<close> is called.
\<close>

theorem stopped_unknown_feature:
  assumes "feature \<notin> set (features s)"
  shows "features (handle_feature_stopped feature s) = features s
       \<and> (if features s = []
          then handle_feature_stopped feature s
                 = shutdown (emit (Log LOG_INFO ''All features have stopped'' []) s)
          else handle_feature_stopped feature s = s)"
proof -
  from assms have same: "erase_loop feature 0 (features s) = features s"
    by (rule erase_loop_absent)
  have unchanged: "s\<lparr>features := features s\<rparr> = s" by simp
  show ?thesis
    unfolding handle_feature_stopped_def same unchanged Let_def by simp
qed

theorem stopped_unknown_feature_witness:
  "7 \<notin> set (features initial)
   \<and> handle_feature_stopped 7 initial
       = \<lparr>features = [], attemptingShutdown = True,
          effects = [Log LOG_INFO ''All features have stopped'' [], LoggerShutdown],
          status = Running\<rparr>
   \<and> handle_feature_stopped 7 (initial\<lparr>features := [1, 2]\<rparr>) = initial\<lparr>features := [1, 2]\<rparr>"
  using stopped_unknown_feature [of 7 initial]
    stopped_unknown_feature [of 7 "initial\<lparr>features := [1, 2]\<rparr>"]
  by (simp add: initial_def shutdown_def emit_def)

text \<open>
  C10. A call of \<^verbatim>\<open>shutdown()\<close> that finds the flag set ends the process with exit status
  0. This is the status with which \<^verbatim>\<open>main\<close> returns when the command line or the
  configuration is rejected, and the status of a clean shutdown, where an interrupt is
  followed by the STOPPED notification of every registered feature.
\<close>

theorem second_shutdown_exits_zero:
  assumes "attemptingShutdown s"
  shows "status (shutdown s) = Exited 0
       \<and> status (main_startup False inited initialized with_jobs with_tunneling jobs tunneling)
           = status (shutdown s)
       \<and> status (main_startup parsed False initialized with_jobs with_tunneling jobs tunneling)
           = status (shutdown s)
       \<and> (distinct (features s0) \<and> features s0 \<noteq> [] \<and> status s0 = Running
            \<and> \<not> attemptingShutdown s0 \<and> distinct order \<and> set order = set (features s0) \<longrightarrow>
          status (run NDEBUG (Signal SIGINT # stopped_events order) s0) = status (shutdown s))"
proof -
  have zero: "status (shutdown s) = Exited 0"
    using assms by (simp add: shutdown_again)
  have clean: "status (run NDEBUG (Signal SIGINT # stopped_events order) s0) = Exited 0"
    if "distinct (features s0)" and "features s0 \<noteq> []" and "status s0 = Running"
      and "\<not> attemptingShutdown s0" and "distinct order" and "set order = set (features s0)"
  proof -
    let ?s1 = "on_signal SIGINT s0"
    have s1: "?s1 = shutdown (emit Disconnect
                (emit (Log LOG_INFO ''Received signal: (%d)'' [Number SIGINT]) s0))"
      by (simp add: on_signal_def Let_def)
    with that have run1: "status ?s1 = Running" "features ?s1 = features s0"
      "attemptingShutdown ?s1"
      by (simp_all add: status_shutdown_first)
    with that have "run NDEBUG (stopped_events order) ?s1 =
           shutdown (?s1\<lparr>features := [],
              effects := effects ?s1 @ map has_stopped order
                           @ [Log LOG_INFO ''All features have stopped'' []]\<rparr>)"
      by (intro run_stopped_all) simp_all
    with run1 have "status (run NDEBUG (stopped_events order) ?s1) = Exited 0"
      by (simp add: shutdown_again)
    with that show ?thesis by simp
  qed
  have parse: "status (main_startup False inited initialized with_jobs with_tunneling
                  jobs tunneling) = Exited 0"
    by (simp add: main_startup_def)
  have init: "status (main_startup parsed False initialized with_jobs with_tunneling
                  jobs tunneling) = Exited 0"
    by (simp add: main_startup_def)
  show ?thesis
    unfolding zero parse init using clean by blast
qed

theorem second_shutdown_exits_zero_witness:
  "status (shutdown (shutdown (main_startup True True True True True 1 2))) = Exited 0
   \<and> status (main_startup False True True True True 1 2) = Exited 0
   \<and> status (run True (Signal SIGINT # stopped_events [2, 1])
        (main_startup True True True True True 1 2)) = Exited 0"
proof -
  let ?s0 = "main_startup True True True True True 1 2"
  have s0: "?s0 = \<lparr>features = [1, 2], attemptingShutdown = False,
                     effects = [Init 1, Init 2, Start 1, Start 2], status = Running\<rparr>"
    by (simp add: main_startup_def initial_def register_feature_def start_feature_def emit_def)
  have "attemptingShutdown (shutdown ?s0)" by simp
  from second_shutdown_exits_zero [OF this, where ?s0.0 = ?s0 and order = "[2, 1]"
         and parsed = True and inited = True and initialized = True and with_jobs = True
         and with_tunneling = True and jobs = 1 and tunneling = 2 and NDEBUG = True]
  show ?thesis
    unfolding s0 by (simp add: insert_commute)
qed

section \<open>Properties of the resolver\<close>

lemma overlay_apply: "overlay l h k = (case h k of Some v \<Rightarrow> Some v | None \<Rightarrow> l k)"
  by (simp add: overlay_def)

lemma merge_layers_highest:
  "merge_layers d f c e k = highest_supplied [e k, c k, f k, d k]"
  by (cases "e k"; cases "c k"; cases "f k"; cases "d k")
     (simp_all add: merge_layers_def overlay_apply)

lemma fst_resolve: "fst (resolve mode sp d f c e) = build sp (merge_layers d f c e)"
  by (simp add: resolve_def Let_def)


lemma merged_logging:
  "merge_layers builtin_defaults json_logging cli_logging Map.empty LogLevel = Some (Str ''warn'')"
  "merge_layers builtin_defaults json_logging cli_logging Map.empty LogType = Some (Str ''FILE'')"
  "merge_layers builtin_defaults json_logging cli_logging Map.empty LogFile
     = Some (Str ''./client.log'')"
  by (simp_all add: merge_layers_highest cli_logging_def)



text \<open>
  The model against the tests: what \<^verbatim>\<open>AllFeaturesEnabled\<close>, \<^verbatim>\<open>HappyCaseMinimumConfig\<close>,
  \<^verbatim>\<open>HappyCaseMinimumCli\<close> and \<^verbatim>\<open>SecureTunnelingCli\<close> assert of the loaded configuration
  and of \<^verbatim>\<open>Validate()\<close> holds of the resolved structure and of its validation.
\<close>

lemma test_AllFeaturesEnabled:
  "resolve Standard sp builtin_defaults json_all_features Map.empty Map.empty
     = (\<lparr>endpoint = Some ''endpoint value'', cert = Some ''cert'', key = Some ''key'',
         rootCa = Some ''root-ca'', thingName = Some ''thing-name value'',
         log_level = Some 3, log_sinkType = Some ''file'',
         log_filePath = Some ''./aws-iot-device-client.log'', jobs_enabled = True,
         tunneling_enabled = True, tunneling_region = None,
         tunneling_destinationAccessToken = None, tunneling_port = None,
         tunneling_service = None, tunneling_subscribeNotification = True,
         deviceDefender_enabled = True, deviceDefender_intervalSeconds = Some 300,
         fleetProvisioning_enabled = False\<rparr>, True)"
  by (simp add: resolve_def Let_def build_def resolve_port_def GetPortFromService_def
        merge_layers_highest str_at_def num_at_def
        flag_at_def builtin_defaults_def json_all_features_def json_minimum_def
        ParseLogLevel_def to_lower_def level_recognized_def Validate_def identity_present_def
        tunneling_valid_def supplied_def all_fields_def)

lemma test_HappyCaseMinimumConfig:
  "resolve Standard sp builtin_defaults json_minimum Map.empty Map.empty
     = (\<lparr>endpoint = Some ''endpoint value'', cert = Some ''cert'', key = Some ''key'',
         rootCa = Some ''root-ca'', thingName = Some ''thing-name value'',
         log_level = None, log_sinkType = None, log_filePath = None, jobs_enabled = True,
         tunneling_enabled = True, tunneling_region = None,
         tunneling_destinationAccessToken = None, tunneling_port = None,
         tunneling_service = None, tunneling_subscribeNotification = True,
         deviceDefender_enabled = True, deviceDefender_intervalSeconds = None,
         fleetProvisioning_enabled = False\<rparr>, True)"
  by (simp add: resolve_def Let_def build_def resolve_port_def GetPortFromService_def
        merge_layers_highest str_at_def num_at_def
        flag_at_def builtin_defaults_def json_minimum_def
        level_recognized_def Validate_def identity_present_def
        tunneling_valid_def supplied_def all_fields_def)

lemma test_HappyCaseMinimumCli:
  "resolve Standard sp builtin_defaults Map.empty json_minimum Map.empty
     = resolve Standard sp builtin_defaults json_minimum Map.empty Map.empty"
  by (simp add: resolve_def Let_def build_def resolve_port_def GetPortFromService_def
        merge_layers_highest str_at_def num_at_def
        flag_at_def builtin_defaults_def json_minimum_def
        level_recognized_def Validate_def identity_present_def
        tunneling_valid_def supplied_def all_fields_def)

lemma test_SecureTunnelingCli:
  "resolve Standard named_service_ports builtin_defaults json_tunneling cli_tunneling
       env_tunneling
     = (\<lparr>endpoint = Some ''endpoint value'', cert = Some ''cert'', key = Some ''key'',
         rootCa = Some ''root-ca'', thingName = Some ''thing-name value'',
         log_level = None, log_sinkType = None, log_filePath = None, jobs_enabled = True,
         tunneling_enabled = True, tunneling_region = Some ''region value'',
         tunneling_destinationAccessToken = Some ''destination_access_token_value'',
         tunneling_port = Some 22, tunneling_service = Some ''SSH'',
         tunneling_subscribeNotification = False,
         deviceDefender_enabled = True, deviceDefender_intervalSeconds = None,
         fleetProvisioning_enabled = False\<rparr>, True)"
  by (simp add: resolve_def Let_def build_def resolve_port_def GetPortFromService_def
        merge_layers_highest str_at_def num_at_def
        flag_at_def builtin_defaults_def json_tunneling_def json_minimum_def cli_tunneling_def
        env_tunneling_def named_service_ports_def
        level_recognized_def Validate_def identity_present_def
        tunneling_valid_def supplied_def all_fields_def)

text \<open>
  C5. For every field and every four layers, the merge holds the value of the
  highest-precedence layer (environment, then command line, then file, then defaults) that
  supplies the field, and the resolved structure is read off these values; a layer that does
  not supply a field leaves the value of the layers below it, and one that supplies it
  replaces it. With the logging section of the file set to level "DEBUG", type "STDOUT" and
  file "old-json-log.log", and the command line set to level "warn", type "FILE" and file
  "./client.log", the resolved level is the ordinal 1, the type "file" and the file
  "./client.log".
\<close>

theorem layered_precedence:
  "fst (resolve mode sp d f c e) = build sp (\<lambda>k. highest_supplied [e k, c k, f k, d k])
   \<and> merge_layers d f c e k = highest_supplied [e k, c k, f k, d k]
   \<and> (h k = None \<longrightarrow> overlay l h k = l k)
   \<and> (h k = Some v \<longrightarrow> overlay l h k = Some v)
   \<and> log_level (fst (resolve mode sp builtin_defaults json_logging cli_logging Map.empty))
       = Some 1
   \<and> log_sinkType (fst (resolve mode sp builtin_defaults json_logging cli_logging Map.empty))
       = Some ''file''
   \<and> log_filePath (fst (resolve mode sp builtin_defaults json_logging cli_logging Map.empty))
       = Some ''./client.log''"
proof -
  have "merge_layers d f c e = (\<lambda>k. highest_supplied [e k, c k, f k, d k])"
    by (rule ext) (rule merge_layers_highest)
  then have "fst (resolve mode sp d f c e)
               = build sp (\<lambda>k. highest_supplied [e k, c k, f k, d k])"
    by (simp add: fst_resolve)
  moreover have "log_level (fst (resolve mode sp builtin_defaults json_logging cli_logging
                    Map.empty)) = Some 1"
    by (simp add: fst_resolve build_def str_at_def merged_logging ParseLogLevel_def
          to_lower_def)
  moreover have "log_sinkType (fst (resolve mode sp builtin_defaults json_logging cli_logging
                    Map.empty)) = Some ''file''"
    by (simp add: fst_resolve build_def str_at_def merged_logging to_lower_def)
  moreover have "log_filePath (fst (resolve mode sp builtin_defaults json_logging cli_logging
                    Map.empty)) = Some ''./client.log''"
    by (simp add: fst_resolve build_def str_at_def merged_logging)
  ultimately show ?thesis
    by (simp add: merge_layers_highest overlay_apply)
qed

theorem layered_precedence_witness:
  "merge_layers builtin_defaults json_logging cli_logging env_tunneling LogLevel
     = Some (Str ''warn'')
   \<and> merge_layers builtin_defaults json_logging cli_logging env_tunneling Endpoint
     = Some (Str ''endpoint value'')
   \<and> merge_layers builtin_defaults json_logging cli_logging env_tunneling JobsEnabled
     = Some (Bool True)
   \<and> cli_logging Endpoint = None
   \<and> overlay json_logging cli_logging Endpoint = json_logging Endpoint
   \<and> overlay json_logging cli_logging LogFile = Some (Str ''./client.log'')"
  using layered_precedence [where d = builtin_defaults and f = json_logging and c = cli_logging
      and e = env_tunneling and k = LogLevel and h = cli_logging and l = json_logging
      and v = "Str ''./client.log''"]
    layered_precedence [where d = builtin_defaults and f = json_logging and c = cli_logging
      and e = env_tunneling and k = Endpoint and h = cli_logging and l = json_logging]
    layered_precedence [where d = builtin_defaults and f = json_logging and c = cli_logging
      and e = env_tunneling and k = JobsEnabled and h = cli_logging and l = json_logging]
    layered_precedence [where d = builtin_defaults and f = json_logging and c = cli_logging
      and e = env_tunneling and k = LogFile and h = cli_logging and l = json_logging
      and v = "Str ''./client.log''"]
  by (simp add: builtin_defaults_def json_logging_def json_minimum_def cli_logging_def
        env_tunneling_def)

text \<open>
  C6. When the environment supplies the access token of the tunnel, the resolved token is
  the environment's, whatever the defaults, the file and the command line supply.
\<close>

theorem environment_token_wins:
  assumes "e TunnelingToken = Some (Str token)"
  shows "tunneling_destinationAccessToken (fst (resolve mode sp d f c e)) = Some token"
  using assms by (simp add: fst_resolve build_def str_at_def merge_layers_highest)

theorem environment_token_wins_witness:
  "env_tunneling TunnelingToken = Some (Str ''destination_access_token_value'')
   \<and> tunneling_destinationAccessToken
       (fst (resolve Standard named_service_ports
          (builtin_defaults(TunnelingToken \<mapsto> Str ''default token''))
          (json_tunneling(TunnelingToken \<mapsto> Str ''file token''))
          (cli_tunneling(TunnelingToken \<mapsto> Str ''cli token''))
          env_tunneling))
     = Some ''destination_access_token_value''"
  using environment_token_wins [where e = env_tunneling
      and token = "''destination_access_token_value''" and mode = Standard
      and sp = named_service_ports
      and d = "builtin_defaults(TunnelingToken \<mapsto> Str ''default token'')"
      and f = "json_tunneling(TunnelingToken \<mapsto> Str ''file token'')"
      and c = "cli_tunneling(TunnelingToken \<mapsto> Str ''cli token'')"]
  by (simp add: env_tunneling_def)







end
